theory Spec2Isabelle
  imports Main
begin

section \<open>Data model\<close>

text \<open>
  The proposal service (\<^verbatim>\<open>app/routers/proposals.py\<close>) keeps proposal records in a
  TinyDB table and exposes create / claim / mark\_processed / mark\_failed and the
  read-only getters. The worker (\<^verbatim>\<open>worker/worker.py\<close>) claims a proposal, runs the
  candidate generator in a child process and reports the outcome.

  Opaque payloads (strategy configuration, experiment rows, candidate rows) are carried
  as strings: no operation of the service looks inside them. Timestamps are integers
  read from a clock; every function that calls \<^verbatim>\<open>datetime.datetime.now()\<close> takes the
  value read as its argument \<open>now\<close>. Serialising a record with \<^verbatim>\<open>model_dump\<close> and
  parsing it back with \<^verbatim>\<open>Proposal(**d)\<close> is taken to return the same record.
\<close>

datatype StateEnum = CREATED | CLAIMED | FINISHED | FAILED

type_synonym strategy_data = string
type_synonym Experiments = "string list"
type_synonym timestamp = int

record Candidates =
  rows :: "string list"

text \<open>
  Modelled from the spec: the declarations of \<^verbatim>\<open>ProposalRequest\<close> and \<^verbatim>\<open>Proposal\<close>
  are imported by the sources but are not among them. The fields are those of the spec's
  data model; a record built from a request has no identifier, state \<^verbatim>\<open>CREATED\<close>, no
  candidates, no error message and both timestamps set to the current time.
\<close>

record ProposalRequest =
  req_strategy_data :: strategy_data
  req_experiments :: "Experiments option"
  req_n_candidates :: int

record Proposal =
  id_p :: "int option"
  strategy_data :: strategy_data
  experiments :: "Experiments option"
  n_candidates :: int
  state :: StateEnum
  candidates :: "Candidates option"
  error_message :: "string option"
  created_at :: timestamp
  last_updated_at :: timestamp

definition Proposal_of_request :: "ProposalRequest \<Rightarrow> timestamp \<Rightarrow> Proposal" where
  "Proposal_of_request r now =
     \<lparr> id_p = None,
       strategy_data = req_strategy_data r,
       experiments = req_experiments r,
       n_candidates = req_n_candidates r,
       state = CREATED,
       candidates = None,
       error_message = None,
       created_at = now,
       last_updated_at = now \<rparr>"

datatype error = HTTPException int string | KeyError | TypeError

section \<open>The document store\<close>

text \<open>
  The TinyDB table: documents keyed by document id, in insertion order (the order in
  which \<^verbatim>\<open>search\<close> and \<^verbatim>\<open>all\<close> return them). \<^verbatim>\<open>insert\<close> gives a new document the
  largest id in the table plus one, or 1 in an empty table; \<^verbatim>\<open>update\<close> with
  \<^verbatim>\<open>doc_ids=[i]\<close> rewrites the document stored under \<open>i\<close> and raises
  \<^verbatim>\<open>KeyError\<close> when there is none.
\<close>

type_synonym db = "(int \<times> Proposal) list"

definition db_get :: "db \<Rightarrow> int \<Rightarrow> Proposal option" where
  "db_get d i = map_of d i"

definition db_all :: "db \<Rightarrow> Proposal list" where
  "db_all d = map snd d"

definition db_search :: "(Proposal \<Rightarrow> bool) \<Rightarrow> db \<Rightarrow> Proposal list" where
  "db_search q d = filter q (map snd d)"

definition next_id :: "db \<Rightarrow> int" where
  "next_id d = (case map fst d of [] \<Rightarrow> 1 | k # ks \<Rightarrow> fold max ks k + 1)"

definition db_insert :: "Proposal \<Rightarrow> db \<Rightarrow> int \<times> db" where
  "db_insert p d = (let i = next_id d in (i, d @ [(i, p)]))"

definition db_update :: "(Proposal \<Rightarrow> Proposal) \<Rightarrow> int \<Rightarrow> db \<Rightarrow> error + db" where
  "db_update f i d =
     (case map_of d i of
        None \<Rightarrow> Inl KeyError
      | Some _ \<Rightarrow> Inr (map (\<lambda>(k, p). if k = i then (k, f p) else (k, p)) d))"

section \<open>The proposal service\<close>

text \<open>Decimal text of an integer, as an f-string prints it.\<close>

fun str_nat :: "nat \<Rightarrow> string" where
  "str_nat n =
     (if n < 10 then [''0123456789'' ! n]
      else str_nat (n div 10) @ [''0123456789'' ! (n mod 10)])"

definition str_int :: "int \<Rightarrow> string" where
  "str_int i = (if i < 0 then CHR ''-'' # str_nat (nat (- i)) else str_nat (nat i))"

definition get_proposal_from_db :: "int \<Rightarrow> db \<Rightarrow> error + Proposal" where
  "get_proposal_from_db proposal_id d =
     (case db_get d proposal_id of
        None \<Rightarrow> Inl (HTTPException 404 ''Proposal not found'')
      | Some dict_proposal \<Rightarrow> Inr dict_proposal)"

text \<open>
  Every operation returns its result (or the exception it raises) together with the
  store it leaves behind.
\<close>

definition create_proposal :: "ProposalRequest \<Rightarrow> timestamp \<Rightarrow> db \<Rightarrow> (error + Proposal) \<times> db" where
  "create_proposal proposal_request now d =
     (let proposal = Proposal_of_request proposal_request now;
          (i, d1) = db_insert proposal d
      in case db_update (\<lambda>p. p\<lparr>id_p := Some i\<rparr>) i d1 of
           Inl e \<Rightarrow> (Inl e, d1)
         | Inr d2 \<Rightarrow>
             (case db_get d2 i of
                None \<Rightarrow> (Inl TypeError, d2)
              | Some updated_proposal \<Rightarrow> (Inr updated_proposal, d2)))"

definition get_proposals :: "db \<Rightarrow> Proposal list" where
  "get_proposals d = db_all d"

definition claim_proposal :: "timestamp \<Rightarrow> db \<Rightarrow> (error + Proposal) \<times> db" where
  "claim_proposal now d =
     (case db_search (\<lambda>p. state p = CREATED) d of
        [] \<Rightarrow> (Inl (HTTPException 404 ''No proposals to claim''), d)
      | proposal # _ \<Rightarrow>
          (case id_p proposal of
             None \<Rightarrow> (Inl KeyError, d)
           | Some i \<Rightarrow>
               (case db_update (\<lambda>p. p\<lparr>state := CLAIMED, last_updated_at := now\<rparr>) i d of
                  Inl e \<Rightarrow> (Inl e, d)
                | Inr d1 \<Rightarrow>
                    (case db_get d1 i of
                       None \<Rightarrow> (Inl TypeError, d1)
                     | Some updated_proposal \<Rightarrow> (Inr updated_proposal, d1)))))"

definition get_proposal :: "int \<Rightarrow> db \<Rightarrow> error + Proposal" where
  "get_proposal proposal_id d = get_proposal_from_db proposal_id d"

definition get_candidates :: "int \<Rightarrow> db \<Rightarrow> error + Candidates" where
  "get_candidates proposal_id d =
     (case get_proposal_from_db proposal_id d of
        Inl e \<Rightarrow> Inl e
      | Inr proposal \<Rightarrow>
          (case candidates proposal of
             None \<Rightarrow> Inl (HTTPException 404 ''Candidates not found'')
           | Some c \<Rightarrow> Inr c))"

definition get_state :: "int \<Rightarrow> db \<Rightarrow> error + StateEnum" where
  "get_state proposal_id d =
     (case get_proposal_from_db proposal_id d of
        Inl e \<Rightarrow> Inl e
      | Inr proposal \<Rightarrow> Inr (state proposal))"

definition mark_processed :: "int \<Rightarrow> Candidates \<Rightarrow> timestamp \<Rightarrow> db \<Rightarrow> (error + StateEnum) \<times> db" where
  "mark_processed proposal_id cands now d =
     (case get_proposal_from_db proposal_id d of
        Inl e \<Rightarrow> (Inl e, d)
      | Inr proposal \<Rightarrow>
          if int (length (rows cands)) \<noteq> n_candidates proposal
          then (Inl (HTTPException 400
                  (''Expected '' @ str_int (n_candidates proposal) @ '' candidates, got ''
                     @ str_int (int (length (rows cands))))), d)
          else
            (let proposal' = proposal\<lparr>candidates := Some cands,
                                      last_updated_at := now,
                                      state := FINISHED\<rparr>
             in case db_update (\<lambda>_. proposal') proposal_id d of
                  Inl e \<Rightarrow> (Inl e, d)
                | Inr d1 \<Rightarrow> (Inr (state proposal'), d1)))"

definition mark_failed :: "int \<Rightarrow> (string \<rightharpoonup> string) \<Rightarrow> timestamp \<Rightarrow> db \<Rightarrow> (error + StateEnum) \<times> db" where
  "mark_failed proposal_id error_msg now d =
     (case get_proposal_from_db proposal_id d of
        Inl e \<Rightarrow> (Inl e, d)
      | Inr proposal \<Rightarrow>
          (case error_msg ''msg'' of
             None \<Rightarrow> (Inl KeyError, d)
           | Some m \<Rightarrow>
               (let proposal' = proposal\<lparr>last_updated_at := now,
                                         state := FAILED,
                                         error_message := Some m\<rparr>
                in case db_update (\<lambda>_. proposal') proposal_id d of
                     Inl e \<Rightarrow> (Inl e, d)
                   | Inr d1 \<Rightarrow> (Inr (state proposal'), d1))))"

subsection \<open>Sequences of service operations\<close>

datatype op =
    OpCreate ProposalRequest
  | OpClaim
  | OpMarkProcessed int Candidates
  | OpMarkFailed int "string \<rightharpoonup> string"

fun apply_op :: "timestamp \<times> op \<Rightarrow> db \<Rightarrow> db" where
  "apply_op (now, OpCreate r) d = snd (create_proposal r now d)"
| "apply_op (now, OpClaim) d = snd (claim_proposal now d)"
| "apply_op (now, OpMarkProcessed i c) d = snd (mark_processed i c now d)"
| "apply_op (now, OpMarkFailed i m) d = snd (mark_failed i m now d)"

definition run :: "(timestamp \<times> op) list \<Rightarrow> db \<Rightarrow> db" where
  "run ops d = fold apply_op ops d"

subsection \<open>Predicates on stored records\<close>

text \<open>
  The identifier bookkeeping of the table: document ids are distinct and every stored
  record carries its own document id in its \<^verbatim>\<open>id\<close> field.
\<close>

definition wf_db :: "db \<Rightarrow> bool" where
  "wf_db d = (distinct (map fst d) \<and> list_all (\<lambda>(k, p). id_p p = Some k) d)"


text \<open>The same correspondence without the two exclusions for terminal records.\<close>

definition outcome_present :: "Proposal \<Rightarrow> bool" where
  "outcome_present p =
     (case state p of
        CREATED \<Rightarrow> candidates p = None \<and> error_message p = None
      | CLAIMED \<Rightarrow> candidates p = None \<and> error_message p = None
      | FINISHED \<Rightarrow> candidates p \<noteq> None
      | FAILED \<Rightarrow> error_message p \<noteq> None)"

definition is_open :: "Proposal \<Rightarrow> bool" where
  "is_open p = (state p = CREATED \<or> state p = CLAIMED)"



definition count_matches :: "Proposal \<Rightarrow> bool" where
  "count_matches p =
     (case candidates p of None \<Rightarrow> True | Some c \<Rightarrow> int (length (rows c)) = n_candidates p)"

definition finished_has_candidates :: "Proposal \<Rightarrow> bool" where
  "finished_has_candidates p =
     (state p = FINISHED \<longrightarrow>
        (case candidates p of None \<Rightarrow> False | Some c \<Rightarrow> int (length (rows c)) = n_candidates p))"

subsection \<open>Claim calls one after another\<close>

fun claim_many :: "timestamp list \<Rightarrow> db \<Rightarrow> (error + Proposal) list \<times> db" where
  "claim_many [] d = ([], d)"
| "claim_many (now # ts) d =
     (let (r, d1) = claim_proposal now d;
          (rs, d2) = claim_many ts d1
      in (r # rs, d2))"

subsection \<open>Claim calls running at the same time\<close>

text \<open>
  \<^verbatim>\<open>claim_proposal\<close> talks to the store twice: the search for \<^verbatim>\<open>CREATED\<close> records
  (line 102) and, after picking the first hit, the update by identifier followed by the
  read-back (lines 106 to 110). Nothing in the function or in \<^verbatim>\<open>get_db\<close> holds a lock
  between the two, so calls served at the same time can be scheduled between them. Each
  of the two parts is taken as one indivisible step here; a finer split only adds
  schedules.
\<close>

datatype claim_pc = Entered | Selected Proposal | Returned "error + Proposal"

definition claim_select :: "db \<Rightarrow> claim_pc" where
  "claim_select d =
     (case db_search (\<lambda>p. state p = CREATED) d of
        [] \<Rightarrow> Returned (Inl (HTTPException 404 ''No proposals to claim''))
      | proposal # _ \<Rightarrow> Selected proposal)"

definition claim_commit :: "timestamp \<Rightarrow> Proposal \<Rightarrow> db \<Rightarrow> (error + Proposal) \<times> db" where
  "claim_commit now proposal d =
     (case id_p proposal of
        None \<Rightarrow> (Inl KeyError, d)
      | Some i \<Rightarrow>
          (case db_update (\<lambda>p. p\<lparr>state := CLAIMED, last_updated_at := now\<rparr>) i d of
             Inl e \<Rightarrow> (Inl e, d)
           | Inr d1 \<Rightarrow>
               (case db_get d1 i of
                  None \<Rightarrow> (Inl TypeError, d1)
                | Some updated_proposal \<Rightarrow> (Inr updated_proposal, d1))))"

fun claim_step :: "timestamp \<Rightarrow> claim_pc \<Rightarrow> db \<Rightarrow> claim_pc \<times> db" where
  "claim_step now Entered d = (claim_select d, d)"
| "claim_step now (Selected proposal) d =
     (let (r, d1) = claim_commit now proposal d in (Returned r, d1))"
| "claim_step now (Returned r) d = (Returned r, d)"

text \<open>
  A schedule names, step by step, the call that moves next (and the clock value it would
  read).
\<close>

fun sched_step :: "timestamp \<times> nat \<Rightarrow> db \<times> claim_pc list \<Rightarrow> db \<times> claim_pc list" where
  "sched_step (now, t) (d, pcs) =
     (if t < length pcs
      then (let (pc, d1) = claim_step now (pcs ! t) d in (d1, pcs[t := pc]))
      else (d, pcs))"

definition interleave :: "(timestamp \<times> nat) list \<Rightarrow> db \<times> claim_pc list \<Rightarrow> db \<times> claim_pc list" where
  "interleave sched cfg = fold sched_step sched cfg"

section \<open>The transport client\<close>

text \<open>
  An exception of class \<^verbatim>\<open>Exception\<close> is only ever looked at through
  \<^verbatim>\<open>str(e)\<close> on the worker's side; it is modelled by that text.
\<close>

datatype exn = Exn string

fun str :: "exn \<Rightarrow> string" where
  "str (Exn s) = s"

datatype body = ProposalBody Proposal | StateBody StateEnum | DetailBody string | ErrorBody

record response =
  status_code :: int
  content :: body

text \<open>
  What the web framework sends for the outcome of the \<^verbatim>\<open>/proposals/claim\<close> route: the
  returned record with status 200, an \<^verbatim>\<open>HTTPException\<close> with its own status code and
  detail, any other exception as status 500.
\<close>

fun claim_response :: "error + Proposal \<Rightarrow> response" where
  "claim_response (Inr p) = \<lparr>status_code = 200, content = ProposalBody p\<rparr>"
| "claim_response (Inl (HTTPException c detail)) = \<lparr>status_code = c, content = DetailBody detail\<rparr>"
| "claim_response (Inl _) = \<lparr>status_code = 500, content = ErrorBody\<rparr>"

text \<open>
  \<^verbatim>\<open>Client.claim_proposal\<close>. The request itself may raise; \<open>loads\<close> stands for
  \<^verbatim>\<open>Proposal(**json.loads(response.content))\<close>, which returns a record or raises.
\<close>

definition Client_claim_proposal ::
    "(body \<Rightarrow> exn + Proposal) \<Rightarrow> exn + response \<Rightarrow> exn + Proposal option" where
  "Client_claim_proposal loads got =
     (case got of
        Inl e \<Rightarrow> Inl e
      | Inr response \<Rightarrow>
          if status_code response = 404 then Inr None
          else (case loads (content response) of
                  Inl e \<Rightarrow> Inl e
                | Inr proposal \<Rightarrow> Inr (Some proposal)))"

section \<open>The worker\<close>

subsection \<open>The unit run in the child process\<close>

text \<open>
  What a call into the strategy library may raise: an exception of class
  \<^verbatim>\<open>Exception\<close> or of a subclass, given by its text, or an exception outside
  \<^verbatim>\<open>Exception\<close> (\<^verbatim>\<open>KeyboardInterrupt\<close>, \<^verbatim>\<open>SystemExit\<close>, \<^verbatim>\<open>GeneratorExit\<close>), given
  by its class name.
\<close>

datatype raised = Raised_Exception exn | Raised_BaseException string

text \<open>
  The strategy library behind \<^verbatim>\<open>process_proposal\<close>: each of its four calls returns a
  value or raises. \<open>'s\<close> is the type of strategy objects, \<open>'f\<close> that of data frames.
\<close>

record ('s, 'f) generator =
  strategies_map :: "strategy_data \<Rightarrow> raised + 's"
  tell :: "'s \<Rightarrow> Experiments \<Rightarrow> raised + 's"
  ask :: "'s \<Rightarrow> int \<Rightarrow> raised + 'f"
  from_pandas :: "'f \<Rightarrow> strategy_data \<Rightarrow> raised + Candidates"

datatype message = Msg_candidates Candidates | Msg_exception exn

text \<open>
  The library calls are recorded with the arguments they take from the proposal: the
  strategy data, the experiments, the requested count, and the strategy data again for
  its domain.
\<close>

datatype unit_event =
    Map_call strategy_data
  | Tell_call Experiments
  | Ask_call int
  | From_pandas_call strategy_data
  | Send message

text \<open>
  The body of the \<^verbatim>\<open>try\<close> block: the calls made, in order, and the candidates computed
  or the exception raised.
\<close>

definition generate :: "('s, 'f) generator \<Rightarrow> Proposal \<Rightarrow> unit_event list \<times> (raised + Candidates)" where
  "generate g proposal =
     (case strategies_map g (strategy_data proposal) of
        Inl e \<Rightarrow> ([Map_call (strategy_data proposal)], Inl e)
      | Inr strategy \<Rightarrow>
          (case (case experiments proposal of
                   None \<Rightarrow> ([], Inr strategy)
                 | Some ex \<Rightarrow> ([Tell_call ex], tell g strategy ex)) of
             (told, Inl e) \<Rightarrow> (Map_call (strategy_data proposal) # told, Inl e)
           | (told, Inr strategy') \<Rightarrow>
               (case ask g strategy' (n_candidates proposal) of
                  Inl e \<Rightarrow>
                    (Map_call (strategy_data proposal) # told @ [Ask_call (n_candidates proposal)],
                     Inl e)
                | Inr df_candidates \<Rightarrow>
                    (Map_call (strategy_data proposal) # told
                       @ [Ask_call (n_candidates proposal),
                          From_pandas_call (strategy_data proposal)],
                     from_pandas g df_candidates (strategy_data proposal)))))"

text \<open>
  How \<^verbatim>\<open>process_proposal\<close> ends: it returns, or its \<^verbatim>\<open>finally\<close> clause raises
  \<^verbatim>\<open>UnboundLocalError\<close>.
\<close>

datatype unit_end = Unit_returns | Unit_raises_UnboundLocalError

text \<open>
  \<^verbatim>\<open>process_proposal\<close>: the events of the unit and how it ends. When the \<^verbatim>\<open>try\<close>
  block computes candidates, \<open>msg\<close> is bound to them; when it raises an
  \<^verbatim>\<open>Exception\<close>, the handler binds \<open>msg\<close> to \<^verbatim>\<open>Exception(str(e))\<close>; in both cases
  the \<^verbatim>\<open>finally\<close> clause sends \<open>msg\<close>. When the block raises outside
  \<^verbatim>\<open>Exception\<close>, the handler \<^verbatim>\<open>except Exception\<close> is not entered, \<open>msg\<close> was never
  bound, and the \<^verbatim>\<open>finally\<close> clause raises \<^verbatim>\<open>UnboundLocalError\<close> on reading it,
  before \<^verbatim>\<open>conn_obj.send\<close> is called.
\<close>

definition process_proposal :: "('s, 'f) generator \<Rightarrow> Proposal \<Rightarrow> unit_event list \<times> unit_end" where
  "process_proposal g proposal =
     (let (calls, r) = generate g proposal in
      case r of
        Inr c \<Rightarrow> (calls @ [Send (Msg_candidates c)], Unit_returns)
      | Inl (Raised_Exception e) \<Rightarrow> (calls @ [Send (Msg_exception (Exn (str e)))], Unit_returns)
      | Inl (Raised_BaseException b) \<Rightarrow> (calls, Unit_raises_UnboundLocalError))"

fun sent :: "unit_event list \<Rightarrow> message list" where
  "sent [] = []"
| "sent (Send m # es) = m # sent es"
| "sent (_ # es) = sent es"

fun asks :: "unit_event list \<Rightarrow> nat" where
  "asks [] = 0"
| "asks (Ask_call n # es) = Suc (asks es)"
| "asks (_ # es) = asks es"

subsection \<open>One round of the control loop\<close>









section \<open>Example data\<close>

definition request3 :: ProposalRequest where
  "request3 = \<lparr>req_strategy_data = ''sobol'', req_experiments = None, req_n_candidates = 3\<rparr>"

definition rows3 :: Candidates where
  "rows3 = \<lparr>rows = [''a'', ''b'', ''c'']\<rparr>"

text \<open>
  A proposal with prior experiments; a generator that returns as many rows as it is
  asked for, one whose \<^verbatim>\<open>ask\<close> raises an \<^verbatim>\<open>Exception\<close>, and one whose \<^verbatim>\<open>ask\<close>
  is interrupted.
\<close>

definition proposal_told :: Proposal where
  "proposal_told =
     (Proposal_of_request request3 0)
       \<lparr>id_p := Some 1, experiments := Some [''run 1''], state := CLAIMED, last_updated_at := 1\<rparr>"

definition gen_ok :: "(string, int) generator" where
  "gen_ok = \<lparr>strategies_map = (\<lambda>sd. Inr sd),
             tell = (\<lambda>s ex. Inr (s @ concat ex)),
             ask = (\<lambda>s n. Inr n),
             from_pandas = (\<lambda>df sd. Inr \<lparr>rows = replicate (nat df) sd\<rparr>)\<rparr>"

definition gen_singular :: "(string, int) generator" where
  "gen_singular = gen_ok\<lparr>ask := (\<lambda>s n. Inl (Raised_Exception (Exn ''singular matrix'')))\<rparr>"

definition gen_interrupted :: "(string, int) generator" where
  "gen_interrupted = gen_ok\<lparr>ask := (\<lambda>s n. Inl (Raised_BaseException ''KeyboardInterrupt''))\<rparr>"





section \<open>Properties of the store and of the service operations\<close>

lemma fold_max_ge: "(k::int) \<le> fold max ks k"
  by (induction ks arbitrary: k) (auto intro: order_trans[OF max.cobounded2])

lemma fold_max_mem: "(x::int) \<in> set ks \<Longrightarrow> x \<le> fold max ks k"
proof (induction ks arbitrary: k)
  case Nil then show ?case by simp
next
  case (Cons a ks)
  show ?case
  proof (cases "x = a")
    case True
    have "a \<le> max a k" by simp
    also have "\<dots> \<le> fold max ks (max a k)" by (rule fold_max_ge)
    finally show ?thesis using True by simp
  next
    case False
    with Cons show ?thesis by simp
  qed
qed

lemma next_id_fresh: "next_id d \<notin> fst ` set d"
proof
  assume a: "next_id d \<in> fst ` set d"
  then obtain k ks where kk: "map fst d = k # ks" by (cases d) auto
  from a have "next_id d \<in> set (map fst d)" by simp
  with kk have "next_id d = k \<or> next_id d \<in> set ks" by simp
  then have "next_id d \<le> fold max ks k" using fold_max_ge fold_max_mem by blast
  with kk show False by (simp add: next_id_def)
qed

lemma upd_keys: "map fst (map (\<lambda>(k, p). if k = i then (k, f p) else (k, p)) d) = map fst d"
  by (induction d) auto

lemma upd_map_of:
  "map_of (map (\<lambda>(k, p). if k = i then (k, f p) else (k, p)) d) j =
     (if j = i then map_option f (map_of d j) else map_of d j)"
  by (induction d) auto

lemma upd_mem:
  assumes "distinct (map fst d)" "map_of d i = Some q"
    and "(k, p) \<in> set (map (\<lambda>(k, p). if k = i then (k, f p) else (k, p)) d)"
  shows "(k \<noteq> i \<and> (k, p) \<in> set d) \<or> (k = i \<and> p = f q)"
  using assms by (auto split: if_splits dest: eq_key_imp_eq_value)

lemma db_update_Some:
  "map_of d i = Some q \<Longrightarrow> db_update f i d = Inr (map (\<lambda>(k, p). if k = i then (k, f p) else (k, p)) d)"
  by (simp add: db_update_def)

lemma db_update_None: "map_of d i = None \<Longrightarrow> db_update f i d = Inl KeyError"
  by (simp add: db_update_def)


lemma upd_id: "i \<notin> fst ` set d \<Longrightarrow> map (\<lambda>(k, p). if k = i then (k, f p) else (k, p)) d = d"
  by (induction d) auto

lemma map_of_fresh: "i \<notin> fst ` set d \<Longrightarrow> map_of (d @ [(i, p)]) i = Some p"
  by (induction d) auto

lemma create_proposal_eq:
  "create_proposal r now d =
     (Inr ((Proposal_of_request r now)\<lparr>id_p := Some (next_id d)\<rparr>),
      d @ [(next_id d, (Proposal_of_request r now)\<lparr>id_p := Some (next_id d)\<rparr>)])"
proof -
  let ?n = "next_id d" and ?p = "Proposal_of_request r now"
  have fresh: "?n \<notin> fst ` set d" by (rule next_id_fresh)
  have u: "db_update (\<lambda>p. p\<lparr>id_p := Some ?n\<rparr>) ?n (d @ [(?n, ?p)])
             = Inr (d @ [(?n, ?p\<lparr>id_p := Some ?n\<rparr>)])"
    using map_of_fresh[OF fresh, of ?p] upd_id[OF fresh] by (simp add: db_update_def)
  have g: "db_get (d @ [(?n, ?p\<lparr>id_p := Some ?n\<rparr>)]) ?n = Some (?p\<lparr>id_p := Some ?n\<rparr>)"
    using map_of_fresh[OF fresh] by (simp add: db_get_def)
  show ?thesis
    by (simp add: create_proposal_def db_insert_def Let_def u g)
qed

lemma wf_db_mem: "wf_db d \<Longrightarrow> (k, p) \<in> set d \<Longrightarrow> id_p p = Some k \<and> map_of d k = Some p"
  by (auto simp: wf_db_def list_all_iff)

lemma wf_db_upd:
  assumes "wf_db d" "\<And>p. id_p (f p) = id_p p"
  shows "wf_db (map (\<lambda>(k, p). if k = i then (k, f p) else (k, p)) d)"
proof -
  let ?d = "map (\<lambda>(k, p). if k = i then (k, f p) else (k, p)) d"
  have k: "map fst ?d = map fst d" by (rule upd_keys)
  have "distinct (map fst ?d)" unfolding k using assms(1) by (simp add: wf_db_def)
  moreover have "list_all (\<lambda>(k, p). id_p p = Some k) ?d"
    using assms by (auto simp: wf_db_def list_all_iff split: if_splits)
  ultimately show ?thesis unfolding wf_db_def by blast
qed

lemma claim_proposal_none:
  "db_search (\<lambda>p. state p = CREATED) d = [] \<Longrightarrow>
     claim_proposal now d = (Inl (HTTPException 404 ''No proposals to claim''), d)"
  by (simp add: claim_proposal_def)

lemma claim_proposal_some:
  assumes wf: "wf_db d" and s: "db_search (\<lambda>p. state p = CREATED) d = q # qs"
  shows "\<exists>k. id_p q = Some k \<and> map_of d k = Some q \<and> state q = CREATED \<and>
           claim_proposal now d =
             (Inr (q\<lparr>state := CLAIMED, last_updated_at := now\<rparr>),
              map (\<lambda>(j, p). if j = k then (j, p\<lparr>state := CLAIMED, last_updated_at := now\<rparr>) else (j, p)) d)"
proof -
  from s have "q \<in> set (db_search (\<lambda>p. state p = CREATED) d)" by simp
  then have qin: "q \<in> snd ` set d" and st: "state q = CREATED" by (auto simp: db_search_def)
  then obtain k where k: "(k, q) \<in> set d" by auto
  with wf have idq: "id_p q = Some k" and m: "map_of d k = Some q" by (auto dest: wf_db_mem)
  have "claim_proposal now d =
             (Inr (q\<lparr>state := CLAIMED, last_updated_at := now\<rparr>),
              map (\<lambda>(j, p). if j = k then (j, p\<lparr>state := CLAIMED, last_updated_at := now\<rparr>) else (j, p)) d)"
    by (simp add: claim_proposal_def s idq db_update_Some[OF m] db_get_def upd_map_of m)
  with idq m st show ?thesis by blast
qed

lemma mark_processed_eq:
  assumes "db_get d i = Some q"
  shows "mark_processed i c now d =
     (if int (length (rows c)) \<noteq> n_candidates q
      then (Inl (HTTPException 400
              (''Expected '' @ str_int (n_candidates q) @ '' candidates, got ''
                 @ str_int (int (length (rows c))))), d)
      else (Inr FINISHED,
            map (\<lambda>(k, p). if k = i
                           then (k, q\<lparr>candidates := Some c, last_updated_at := now, state := FINISHED\<rparr>)
                           else (k, p)) d))"
  using assms by (simp add: mark_processed_def get_proposal_from_db_def db_get_def db_update_def Let_def)

lemma mark_failed_eq:
  assumes "db_get d i = Some q" "m ''msg'' = Some t"
  shows "mark_failed i m now d =
     (Inr FAILED,
      map (\<lambda>(k, p). if k = i
                     then (k, q\<lparr>last_updated_at := now, state := FAILED, error_message := Some t\<rparr>)
                     else (k, p)) d)"
  using assms by (simp add: mark_failed_def get_proposal_from_db_def db_get_def db_update_def Let_def)

lemma mark_processed_missing:
  "db_get d i = None \<Longrightarrow> mark_processed i c now d = (Inl (HTTPException 404 ''Proposal not found''), d)"
  by (simp add: mark_processed_def get_proposal_from_db_def)

lemma mark_failed_missing:
  "db_get d i = None \<Longrightarrow> mark_failed i m now d = (Inl (HTTPException 404 ''Proposal not found''), d)"
  by (simp add: mark_failed_def get_proposal_from_db_def)

lemma mark_failed_nomsg:
  "m ''msg'' = None \<Longrightarrow> snd (mark_failed i m now d) = d"
  by (simp add: mark_failed_def split: sum.splits)


lemma wf_db_create: "wf_db d \<Longrightarrow> wf_db (snd (create_proposal r now d))"
  using next_id_fresh[of d] by (auto simp: create_proposal_eq wf_db_def)

lemma wf_db_claim: "wf_db d \<Longrightarrow> wf_db (snd (claim_proposal now d))"
proof (cases "db_search (\<lambda>p. state p = CREATED) d")
  case Nil
  assume "wf_db d"
  with Nil show ?thesis by (simp add: claim_proposal_none)
next
  case (Cons q qs)
  assume wf: "wf_db d"
  from claim_proposal_some[OF wf Cons, of now] obtain k where
    "claim_proposal now d =
             (Inr (q\<lparr>state := CLAIMED, last_updated_at := now\<rparr>),
              map (\<lambda>(j, p). if j = k then (j, p\<lparr>state := CLAIMED, last_updated_at := now\<rparr>) else (j, p)) d)"
    by blast
  then show ?thesis using wf_db_upd[OF wf, of "\<lambda>p. p\<lparr>state := CLAIMED, last_updated_at := now\<rparr>" k] by simp
qed

lemma wf_db_const_upd:
  assumes wf: "wf_db d" and m: "map_of d i = Some q" and idq: "id_p q' = id_p q"
  shows "wf_db (map (\<lambda>(k, p). if k = i then (k, q') else (k, p)) d)"
proof -
  let ?d = "map (\<lambda>(k, p). if k = i then (k, q') else (k, p)) d"
  have k: "map fst ?d = map fst d" by (rule upd_keys)
  have "distinct (map fst ?d)" unfolding k using wf by (simp add: wf_db_def)
  moreover have "id_p q = Some i" using wf m by (auto simp: wf_db_def list_all_iff dest: map_of_SomeD)
  then have "list_all (\<lambda>(k, p). id_p p = Some k) ?d"
    using wf idq by (auto simp: wf_db_def list_all_iff split: if_splits)
  ultimately show ?thesis unfolding wf_db_def by blast
qed

lemma wf_db_mark_processed: "wf_db d \<Longrightarrow> wf_db (snd (mark_processed i c now d))"
proof (cases "db_get d i")
  case None
  assume "wf_db d"
  with None show ?thesis by (simp add: mark_processed_missing)
next
  case (Some q)
  assume wf: "wf_db d"
  from Some have m: "map_of d i = Some q" by (simp add: db_get_def)
  show ?thesis
    using wf wf_db_const_upd[OF wf m, of "q\<lparr>candidates := Some c, last_updated_at := now, state := FINISHED\<rparr>"]
    by (simp add: mark_processed_eq[OF Some])
qed

lemma wf_db_mark_failed: "wf_db d \<Longrightarrow> wf_db (snd (mark_failed i m now d))"
proof (cases "db_get d i")
  case None
  assume "wf_db d"
  with None show ?thesis by (simp add: mark_failed_missing)
next
  case (Some q)
  assume wf: "wf_db d"
  from Some have mo: "map_of d i = Some q" by (simp add: db_get_def)
  show ?thesis
  proof (cases "m ''msg''")
    case None
    with wf show ?thesis by (simp add: mark_failed_nomsg)
  next
    case (Some t)
    show ?thesis
      using wf_db_const_upd[OF wf mo, of "q\<lparr>last_updated_at := now, state := FAILED, error_message := Some t\<rparr>"]
      by (simp add: mark_failed_eq[where m = m, OF \<open>db_get d i = Some q\<close> Some])
  qed
qed

lemma wf_db_apply_op: "wf_db d \<Longrightarrow> wf_db (apply_op x d)"
proof -
  assume wf: "wf_db d"
  obtain now o' where x: "x = (now, o')" by (cases x)
  show ?thesis unfolding x
    by (cases o') (simp_all add: wf wf_db_create wf_db_claim wf_db_mark_processed wf_db_mark_failed)
qed

lemma wf_db_run: "wf_db d \<Longrightarrow> wf_db (run ops d)"
  unfolding run_def by (induction ops arbitrary: d) (simp_all add: wf_db_apply_op)

lemma wf_db_empty: "wf_db []"
  by (simp add: wf_db_def)

lemma const_upd_mem:
  assumes "(k, p) \<in> set (map (\<lambda>(k, p). if k = i then (k, q') else (k, p)) d)"
  shows "(k, p) \<in> set d \<or> p = q'"
  using assms by (auto split: if_splits)

lemma db_all_mem: "p \<in> set (db_all d) \<longleftrightarrow> (\<exists>j. (j, p) \<in> set d)"
  by (force simp: db_all_def)

lemma apply_op_records:
  assumes wf: "wf_db d" and p: "p \<in> set (db_all (apply_op (now, x) d))"
  shows "p \<in> set (db_all d) \<or>
         (\<exists>r. x = OpCreate r \<and> p = (Proposal_of_request r now)\<lparr>id_p := Some (next_id d)\<rparr>) \<or>
         (\<exists>q. x = OpClaim \<and> q \<in> set (db_all d) \<and> state q = CREATED \<and>
               p = q\<lparr>state := CLAIMED, last_updated_at := now\<rparr>) \<or>
         (\<exists>i c q. x = OpMarkProcessed i c \<and> db_get d i = Some q \<and>
               int (length (rows c)) = n_candidates q \<and>
               p = q\<lparr>candidates := Some c, last_updated_at := now, state := FINISHED\<rparr>) \<or>
         (\<exists>i m q t. x = OpMarkFailed i m \<and> db_get d i = Some q \<and> m ''msg'' = Some t \<and>
               p = q\<lparr>last_updated_at := now, state := FAILED, error_message := Some t\<rparr>)"
proof (cases x)
  case (OpCreate r)
  with p show ?thesis by (auto simp: create_proposal_eq db_all_def)
next
  case OpClaim
  show ?thesis
  proof (cases "db_search (\<lambda>p. state p = CREATED) d")
    case Nil
    with p OpClaim show ?thesis by (simp add: claim_proposal_none)
  next
    case (Cons q qs)
    from claim_proposal_some[OF wf Cons, of now] obtain k where
      k: "map_of d k = Some q" "state q = CREATED" and
      c: "claim_proposal now d =
             (Inr (q\<lparr>state := CLAIMED, last_updated_at := now\<rparr>),
              map (\<lambda>(j, p). if j = k then (j, p\<lparr>state := CLAIMED, last_updated_at := now\<rparr>) else (j, p)) d)"
      by blast
    from p OpClaim c have
      "p \<in> set (db_all (map (\<lambda>(j, p). if j = k then (j, p\<lparr>state := CLAIMED, last_updated_at := now\<rparr>) else (j, p)) d))"
      by simp
    then obtain j where
      "(j, p) \<in> set (map (\<lambda>(j, p). if j = k then (j, p\<lparr>state := CLAIMED, last_updated_at := now\<rparr>) else (j, p)) d)"
      unfolding db_all_mem by blast
    from upd_mem[OF _ k(1) this] wf
    have "(j, p) \<in> set d \<or> p = q\<lparr>state := CLAIMED, last_updated_at := now\<rparr>"
      by (auto simp: wf_db_def)
    moreover have "q \<in> set (db_all d)" using k(1) by (force simp: db_all_def dest: map_of_SomeD)
    ultimately show ?thesis using OpClaim k(2) by (force simp: db_all_def)
  qed
next
  case (OpMarkProcessed i c)
  show ?thesis
  proof (cases "db_get d i")
    case None
    with p OpMarkProcessed show ?thesis by (simp add: mark_processed_missing)
  next
    case (Some q)
    show ?thesis
    proof (cases "int (length (rows c)) = n_candidates q")
      case False
      with p OpMarkProcessed Some show ?thesis by (simp add: mark_processed_eq)
    next
      case True
      with p OpMarkProcessed Some have
        "p \<in> set (db_all (map (\<lambda>(k, p). if k = i
                           then (k, q\<lparr>candidates := Some c, last_updated_at := now, state := FINISHED\<rparr>)
                           else (k, p)) d))"
        by (simp add: mark_processed_eq)
      then obtain j where
        "(j, p) \<in> set (map (\<lambda>(k, p). if k = i
                           then (k, q\<lparr>candidates := Some c, last_updated_at := now, state := FINISHED\<rparr>)
                           else (k, p)) d)"
        unfolding db_all_mem by blast
      from const_upd_mem[OF this] show ?thesis
        using OpMarkProcessed Some True by (force simp: db_all_def)
    qed
  qed
next
  case (OpMarkFailed i m)
  show ?thesis
  proof (cases "db_get d i")
    case None
    with p OpMarkFailed show ?thesis by (simp add: mark_failed_missing)
  next
    case (Some q)
    show ?thesis
    proof (cases "m ''msg''")
      case None
      with p OpMarkFailed show ?thesis by (simp add: mark_failed_nomsg)
    next
      case (Some t)
      with p OpMarkFailed \<open>db_get d i = Some q\<close> have
        "p \<in> set (db_all (map (\<lambda>(k, p). if k = i
                     then (k, q\<lparr>last_updated_at := now, state := FAILED, error_message := Some t\<rparr>)
                     else (k, p)) d))"
        by (simp add: mark_failed_eq[where m = m])
      then obtain j where
        "(j, p) \<in> set (map (\<lambda>(k, p). if k = i
                     then (k, q\<lparr>last_updated_at := now, state := FAILED, error_message := Some t\<rparr>)
                     else (k, p)) d)"
        unfolding db_all_mem by blast
      from const_upd_mem[OF this] show ?thesis
        using OpMarkFailed Some \<open>db_get d i = Some q\<close> by (force simp: db_all_def)
    qed
  qed
qed

lemma db_get_mem: "db_get d i = Some q \<Longrightarrow> q \<in> set (db_all d)"
  by (force simp: db_get_def db_all_def dest: map_of_SomeD)

lemma outcome_present_apply_op:
  assumes wf: "wf_db d" and inv: "list_all outcome_present (db_all d)"
  shows "list_all outcome_present (db_all (apply_op (now, x) d))"
  unfolding list_all_iff
proof
  fix p assume "p \<in> set (db_all (apply_op (now, x) d))"
  from apply_op_records[OF wf this] inv show "outcome_present p"
    by (auto simp: list_all_iff outcome_present_def Proposal_of_request_def
             dest!: db_get_mem split: StateEnum.splits)
qed

lemma outcome_present_run:
  "wf_db d \<Longrightarrow> list_all outcome_present (db_all d) \<Longrightarrow> list_all outcome_present (db_all (run ops d))"
  unfolding run_def
proof (induction ops arbitrary: d)
  case Nil then show ?case by simp
next
  case (Cons x ops)
  obtain now y where x: "x = (now, y)" by (cases x)
  show ?case using Cons.IH[of "apply_op x d"] Cons.prems
    by (simp add: x wf_db_apply_op outcome_present_apply_op)
qed

section \<open>State and outcome fields of stored records\<close>



lemmas service_defs =
  run_def create_proposal_def claim_proposal_def mark_processed_def mark_failed_def
  get_proposal_from_db_def get_candidates_def get_state_def
  db_insert_def db_update_def db_get_def db_all_def db_search_def next_id_def
  Proposal_of_request_def request3_def rows3_def




section \<open>The service operations one by one\<close>

lemma db_get_const_upd:
  "db_get d i = Some q \<Longrightarrow>
   db_get (map (\<lambda>(k, p). if k = i then (k, q') else (k, p)) d) j =
     (if j = i then Some q' else db_get d j)"
  by (simp add: db_get_def upd_map_of)

text \<open>
  C3: for an existing proposal \<open>p\<close> and a submitted candidate set whose row count differs
  from \<open>n_candidates p\<close> (zero rows included, as \<open>n_candidates\<close> is then not zero),
  \<^verbatim>\<open>mark_processed\<close> raises the status-400 validation error and leaves the whole store
  as it was; when the row count equals \<open>n_candidates p\<close> it returns \<^verbatim>\<open>FINISHED\<close> and
  the stored record is \<open>p\<close> with state \<^verbatim>\<open>FINISHED\<close>, the candidates and the new
  timestamp.
\<close>

theorem mark_processed_count_check:
  assumes "db_get d i = Some p"
  shows "(int (length (rows c)) \<noteq> n_candidates p \<longrightarrow>
            mark_processed i c now d =
              (Inl (HTTPException 400
                 (''Expected '' @ str_int (n_candidates p) @ '' candidates, got ''
                    @ str_int (int (length (rows c))))), d)) \<and>
         (int (length (rows c)) = n_candidates p \<longrightarrow>
            fst (mark_processed i c now d) = Inr FINISHED \<and>
            db_get (snd (mark_processed i c now d)) i =
              Some (p\<lparr>state := FINISHED, candidates := Some c, last_updated_at := now\<rparr>))"
  using assms by (simp add: mark_processed_eq db_get_const_upd)

text \<open>
  C3 at a record asking for three candidates: an empty submission is refused with
  ``Expected 3 candidates, got 0'', a submission of three rows is stored.
\<close>

theorem mark_processed_count_check_witness:
  "db_get [(1, Proposal_of_request request3 0)] 1 = Some (Proposal_of_request request3 0) \<and>
   mark_processed 1 \<lparr>rows = []\<rparr> 5 [(1, Proposal_of_request request3 0)] =
     (Inl (HTTPException 400 ''Expected 3 candidates, got 0''), [(1, Proposal_of_request request3 0)]) \<and>
   fst (mark_processed 1 rows3 5 [(1, Proposal_of_request request3 0)]) = Inr FINISHED \<and>
   db_get (snd (mark_processed 1 rows3 5 [(1, Proposal_of_request request3 0)])) 1 =
     Some ((Proposal_of_request request3 0)\<lparr>state := FINISHED, candidates := Some rows3, last_updated_at := 5\<rparr>)"
proof -
  have g: "db_get [(1, Proposal_of_request request3 0)] 1 = Some (Proposal_of_request request3 0)"
    by (simp add: db_get_def)
  have n: "n_candidates (Proposal_of_request request3 0) = 3"
    by (simp add: Proposal_of_request_def request3_def)
  have s: "str_int 3 = ''3''" "str_int 0 = ''0''" by (simp_all add: str_int_def)
  show ?thesis
    using mark_processed_count_check[OF g, of "\<lparr>rows = []\<rparr>" 5]
          mark_processed_count_check[OF g, of rows3 5]
    by (simp add: g n s rows3_def)
qed

lemma mark_failed_result:
  assumes "db_get d i = Some q" and "m ''msg'' = Some t"
  shows "fst (mark_failed i m now d) = Inr FAILED"
    and "db_get (snd (mark_failed i m now d)) j =
           (if j = i then Some (q\<lparr>last_updated_at := now, state := FAILED, error_message := Some t\<rparr>)
            else db_get d j)"
  using assms by (simp_all add: mark_failed_eq[where m = m] db_get_const_upd)

lemma mark_processed_result:
  assumes "db_get d i = Some q" and "int (length (rows c)) = n_candidates q"
  shows "fst (mark_processed i c now d) = Inr FINISHED"
    and "db_get (snd (mark_processed i c now d)) j =
           (if j = i then Some (q\<lparr>candidates := Some c, last_updated_at := now, state := FINISHED\<rparr>)
            else db_get d j)"
  using assms by (simp_all add: mark_processed_eq db_get_const_upd)

text \<open>
  C5: for an existing proposal in any state \<open>s\<close> and a request body whose \<^verbatim>\<open>msg\<close>
  entry is \<open>t\<close>, \<^verbatim>\<open>mark_failed\<close> returns \<^verbatim>\<open>FAILED\<close> and the stored record becomes
  the old one with state \<^verbatim>\<open>FAILED\<close>, error message \<open>t\<close> and the new timestamp; a
  second call with message \<open>t'\<close> is accepted as well and overwrites state, message and
  timestamp.
\<close>

theorem mark_failed_any_state:
  assumes "db_get d i = Some (p\<lparr>state := s\<rparr>)" and "m ''msg'' = Some t" and "m' ''msg'' = Some t'"
  shows "fst (mark_failed i m now d) = Inr FAILED \<and>
         db_get (snd (mark_failed i m now d)) i =
           Some (p\<lparr>state := FAILED, error_message := Some t, last_updated_at := now\<rparr>) \<and>
         fst (mark_failed i m' now' (snd (mark_failed i m now d))) = Inr FAILED \<and>
         db_get (snd (mark_failed i m' now' (snd (mark_failed i m now d)))) i =
           Some (p\<lparr>state := FAILED, error_message := Some t', last_updated_at := now'\<rparr>)"
proof -
  let ?d1 = "snd (mark_failed i m now d)"
  have g1: "db_get ?d1 i = Some (p\<lparr>state := FAILED, error_message := Some t, last_updated_at := now\<rparr>)"
    using mark_failed_result(2)[where m = m, OF assms(1,2), of now i] by simp
  have g2: "db_get (snd (mark_failed i m' now' ?d1)) i =
              Some (p\<lparr>state := FAILED, error_message := Some t', last_updated_at := now'\<rparr>)"
    using mark_failed_result(2)[where m = m', OF g1 assms(3), of now' i] by simp
  show ?thesis
    using mark_failed_result(1)[where m = m, OF assms(1,2), of now]
          mark_failed_result(1)[where m = m', OF g1 assms(3), of now'] g1 g2
    by simp
qed

text \<open>C5 at a record that is already \<^verbatim>\<open>FINISHED\<close>, failed twice.\<close>

theorem mark_failed_any_state_witness:
  "db_get [(1, (Proposal_of_request request3 0)\<lparr>state := FINISHED\<rparr>)] 1
     = Some ((Proposal_of_request request3 0)\<lparr>state := FINISHED\<rparr>) \<and>
   fst (mark_failed 1 [''msg'' \<mapsto> ''singular matrix''] 7
          [(1, (Proposal_of_request request3 0)\<lparr>state := FINISHED\<rparr>)]) = Inr FAILED \<and>
   db_get (snd (mark_failed 1 [''msg'' \<mapsto> ''singular matrix''] 7
          [(1, (Proposal_of_request request3 0)\<lparr>state := FINISHED\<rparr>)])) 1 =
     Some ((Proposal_of_request request3 0)
             \<lparr>state := FAILED, error_message := Some ''singular matrix'', last_updated_at := 7\<rparr>) \<and>
   db_get (snd (mark_failed 1 [''msg'' \<mapsto> ''again''] 8
     (snd (mark_failed 1 [''msg'' \<mapsto> ''singular matrix''] 7
          [(1, (Proposal_of_request request3 0)\<lparr>state := FINISHED\<rparr>)])))) 1 =
     Some ((Proposal_of_request request3 0)
             \<lparr>state := FAILED, error_message := Some ''again'', last_updated_at := 8\<rparr>)"
proof -
  have g: "db_get [(1, (Proposal_of_request request3 0)\<lparr>state := FINISHED\<rparr>)] 1
     = Some ((Proposal_of_request request3 0)\<lparr>state := FINISHED\<rparr>)"
    by (simp add: db_get_def)
  have m: "[''msg'' \<mapsto> ''singular matrix''] ''msg'' = Some ''singular matrix''"
          "[''msg'' \<mapsto> ''again''] ''msg'' = Some ''again''" by simp_all
  show ?thesis
    using mark_failed_any_state[where m = "[''msg'' \<mapsto> ''singular matrix'']"
            and m' = "[''msg'' \<mapsto> ''again'']", OF g m, of 7 8] g
    by simp
qed

text \<open>
  C10: \<^verbatim>\<open>mark_processed\<close> does not look at the state of the record. For an existing
  proposal in any state \<open>s\<close> and a candidate set with the requested number of rows the
  call returns \<^verbatim>\<open>FINISHED\<close>, and afterwards the state read back is \<^verbatim>\<open>FINISHED\<close> and
  the candidates read back are the submitted ones.
\<close>

theorem mark_processed_any_state:
  assumes "db_get d i = Some (p\<lparr>state := s\<rparr>)" and "int (length (rows c)) = n_candidates p"
  shows "fst (mark_processed i c now d) = Inr FINISHED \<and>
         get_state i (snd (mark_processed i c now d)) = Inr FINISHED \<and>
         get_candidates i (snd (mark_processed i c now d)) = Inr c"
proof -
  have n: "int (length (rows c)) = n_candidates (p\<lparr>state := s\<rparr>)"
    using assms(2) by simp
  show ?thesis
    using mark_processed_result(1)[OF assms(1) n, of now]
          mark_processed_result(2)[OF assms(1) n, of now i]
    by (simp add: get_state_def get_candidates_def get_proposal_from_db_def)
qed

text \<open>C10 at a proposal that was created and never claimed.\<close>

theorem mark_processed_any_state_witness:
  "db_get (run [(0, OpCreate request3)] []) 1 = Some ((Proposal_of_request request3 0)\<lparr>id_p := Some 1, state := CREATED\<rparr>) \<and>
   int (length (rows rows3)) = n_candidates ((Proposal_of_request request3 0)\<lparr>id_p := Some 1\<rparr>) \<and>
   fst (mark_processed 1 rows3 4 (run [(0, OpCreate request3)] [])) = Inr FINISHED \<and>
   get_state 1 (snd (mark_processed 1 rows3 4 (run [(0, OpCreate request3)] []))) = Inr FINISHED \<and>
   get_candidates 1 (snd (mark_processed 1 rows3 4 (run [(0, OpCreate request3)] []))) = Inr rows3"
proof -
  have g: "db_get (run [(0, OpCreate request3)] []) 1 = Some ((Proposal_of_request request3 0)\<lparr>id_p := Some 1, state := CREATED\<rparr>)"
    by (simp add: service_defs)
  have n: "int (length (rows rows3)) = n_candidates ((Proposal_of_request request3 0)\<lparr>id_p := Some 1\<rparr>)"
    by (simp add: service_defs)
  show ?thesis using mark_processed_any_state[OF g n, of 4] g n by simp
qed

lemma rows_match_apply_op:
  assumes wf: "wf_db d"
    and inv: "list_all (\<lambda>p. finished_has_candidates p \<and> count_matches p) (db_all d)"
  shows "list_all (\<lambda>p. finished_has_candidates p \<and> count_matches p) (db_all (apply_op (now, x) d))"
  unfolding list_all_iff
proof
  fix p assume "p \<in> set (db_all (apply_op (now, x) d))"
  from apply_op_records[OF wf this] inv show "finished_has_candidates p \<and> count_matches p"
    by (auto simp: list_all_iff finished_has_candidates_def count_matches_def Proposal_of_request_def
             dest!: db_get_mem split: option.splits)
qed

lemma rows_match_run:
  "wf_db d \<Longrightarrow> list_all (\<lambda>p. finished_has_candidates p \<and> count_matches p) (db_all d) \<Longrightarrow>
     list_all (\<lambda>p. finished_has_candidates p \<and> count_matches p) (db_all (run ops d))"
  unfolding run_def
proof (induction ops arbitrary: d)
  case Nil then show ?case by simp
next
  case (Cons x ops)
  obtain now y where x: "x = (now, y)" by (cases x)
  show ?case using Cons.IH[of "apply_op x d"] Cons.prems
    by (simp add: x wf_db_apply_op rows_match_apply_op)
qed

text \<open>
  C7: in every store reached from the empty store by any sequence of service
  operations, every \<^verbatim>\<open>FINISHED\<close> record has candidates whose row count is its
  \<open>n_candidates\<close>; moreover every record that has candidates at all has
  \<open>n_candidates\<close> rows of them.
\<close>

theorem finished_rows_match:
  "list_all finished_has_candidates (db_all (run ops [])) \<and>
   list_all count_matches (db_all (run ops []))"
  using rows_match_run[OF wf_db_empty, of ops]
  by (simp add: db_all_def list_all_iff)

text \<open>C7 at a store that holds a \<^verbatim>\<open>FINISHED\<close> record.\<close>

theorem finished_rows_match_witness:
  "get_state 1 (run [(0, OpCreate request3), (1, OpClaim), (2, OpMarkProcessed 1 rows3)] []) = Inr FINISHED \<and>
   list_all finished_has_candidates
     (db_all (run [(0, OpCreate request3), (1, OpClaim), (2, OpMarkProcessed 1 rows3)] [])) \<and>
   list_all count_matches
     (db_all (run [(0, OpCreate request3), (1, OpClaim), (2, OpMarkProcessed 1 rows3)] []))"
  using finished_rows_match[of "[(0, OpCreate request3), (1, OpClaim), (2, OpMarkProcessed 1 rows3)]"]
  by (simp add: service_defs)

text \<open>
  C6: on a store with no \<^verbatim>\<open>CREATED\<close> record (an empty one included) the claim route
  answers with status 404 and detail ``No proposals to claim'' and leaves the store as it
  was, and \<^verbatim>\<open>Client.claim_proposal\<close> turns that answer into \<^verbatim>\<open>None\<close> without
  raising, whatever the parser \<open>loads\<close> would do.
\<close>

theorem claim_no_work:
  assumes "\<forall>p \<in> set (db_all d). state p \<noteq> CREATED"
  shows "claim_proposal now d = (Inl (HTTPException 404 ''No proposals to claim''), d) \<and>
         Client_claim_proposal loads (Inr (claim_response (fst (claim_proposal now d)))) = Inr None"
proof -
  have "db_search (\<lambda>p. state p = CREATED) d = []"
    using assms by (simp add: db_search_def db_all_def filter_empty_conv)
  then have "claim_proposal now d = (Inl (HTTPException 404 ''No proposals to claim''), d)"
    by (rule claim_proposal_none)
  then show ?thesis by (simp add: Client_claim_proposal_def)
qed

text \<open>C6 at a store whose only proposal is already claimed, and at the empty store.\<close>

theorem claim_no_work_witness:
  "map state (db_all (run [(0, OpCreate request3), (1, OpClaim)] [])) = [CLAIMED] \<and>
   claim_proposal 2 (run [(0, OpCreate request3), (1, OpClaim)] []) =
     (Inl (HTTPException 404 ''No proposals to claim''), run [(0, OpCreate request3), (1, OpClaim)] []) \<and>
   Client_claim_proposal (\<lambda>b. Inl (Exn ''invalid''))
     (Inr (claim_response (fst (claim_proposal 2 (run [(0, OpCreate request3), (1, OpClaim)] []))))) = Inr None \<and>
   claim_proposal 2 [] = (Inl (HTTPException 404 ''No proposals to claim''), [])"
proof -
  have h: "\<forall>p \<in> set (db_all (run [(0, OpCreate request3), (1, OpClaim)] [])). state p \<noteq> CREATED"
    by (simp add: service_defs)
  have e: "\<forall>p \<in> set (db_all []). state p \<noteq> CREATED" by (simp add: db_all_def)
  have s: "map state (db_all (run [(0, OpCreate request3), (1, OpClaim)] [])) = [CLAIMED]"
    by (simp add: service_defs)
  show ?thesis
    using claim_no_work[OF h, of 2 "\<lambda>b. Inl (Exn ''invalid'')"] claim_no_work[OF e, of 2] s
    by (simp add: Client_claim_proposal_def)
qed

text \<open>
  C4, as stated: \<^verbatim>\<open>get_candidates\<close> answers NotFound exactly when the proposal is not
  \<^verbatim>\<open>FINISHED\<close>, in particular after it was marked failed. This fails for a proposal
  that was marked processed and then marked failed: its state is \<^verbatim>\<open>FAILED\<close> and its
  candidates are still returned.
\<close>

theorem get_candidates_counterexample:
  "get_state 1 (run [(0, OpCreate request3), (1, OpClaim), (2, OpMarkProcessed 1 rows3),
                     (3, OpMarkFailed 1 [''msg'' \<mapsto> ''connection lost''])] []) = Inr FAILED \<and>
   get_candidates 1 (run [(0, OpCreate request3), (1, OpClaim), (2, OpMarkProcessed 1 rows3),
                     (3, OpMarkFailed 1 [''msg'' \<mapsto> ''connection lost''])] []) = Inr rows3"
  by (simp add: service_defs)

text \<open>
  C4, amended: for every proposal \<open>p\<close> of a reachable store, \<^verbatim>\<open>get_candidates\<close>
  answers NotFound exactly when \<open>p\<close> has no candidates. That is so whenever \<open>p\<close> is
  \<^verbatim>\<open>CREATED\<close> or \<^verbatim>\<open>CLAIMED\<close> and never when it is \<^verbatim>\<open>FINISHED\<close>; and after a
  proposal without candidates is marked failed, its state is \<^verbatim>\<open>FAILED\<close> and fetching
  its candidates answers NotFound.
\<close>

theorem get_candidates_not_found:
  assumes "db_get (run ops []) i = Some p"
  shows "(get_candidates i (run ops []) = Inl (HTTPException 404 ''Candidates not found'')
            \<longleftrightarrow> candidates p = None) \<and>
         (is_open p \<longrightarrow>
            get_candidates i (run ops []) = Inl (HTTPException 404 ''Candidates not found'')) \<and>
         (state p = FINISHED \<longrightarrow>
            get_candidates i (run ops []) \<noteq> Inl (HTTPException 404 ''Candidates not found'')) \<and>
         (candidates p = None \<and> m ''msg'' = Some t \<longrightarrow>
            get_state i (snd (mark_failed i m now (run ops []))) = Inr FAILED \<and>
            get_candidates i (snd (mark_failed i m now (run ops [])))
              = Inl (HTTPException 404 ''Candidates not found''))"
proof -
  have "outcome_present p"
    using outcome_present_run[OF wf_db_empty, of ops] db_get_mem[OF assms]
    by (auto simp: list_all_iff db_all_def)
  then have o: "is_open p \<longrightarrow> candidates p = None" "state p = FINISHED \<longrightarrow> candidates p \<noteq> None"
    by (auto simp: outcome_present_def is_open_def)
  have g: "get_candidates i (run ops []) =
             (case candidates p of None \<Rightarrow> Inl (HTTPException 404 ''Candidates not found'')
                                 | Some c \<Rightarrow> Inr c)"
    using assms by (simp add: get_candidates_def get_proposal_from_db_def)
  have f: "candidates p = None \<and> m ''msg'' = Some t \<longrightarrow>
            get_state i (snd (mark_failed i m now (run ops []))) = Inr FAILED \<and>
            get_candidates i (snd (mark_failed i m now (run ops [])))
              = Inl (HTTPException 404 ''Candidates not found'')"
    using mark_failed_result(2)[where m = m, OF assms, of t now i]
    by (simp add: get_candidates_def get_state_def get_proposal_from_db_def)
  show ?thesis using o g f by (auto split: option.splits)
qed

text \<open>C4, amended, on create, claim, mark failed with ``singular matrix''.\<close>

theorem get_candidates_not_found_witness:
  "db_get (run [(0, OpCreate request3), (1, OpClaim)] []) 1 =
     Some ((Proposal_of_request request3 0)\<lparr>id_p := Some 1, state := CLAIMED, last_updated_at := 1\<rparr>) \<and>
   is_open ((Proposal_of_request request3 0)\<lparr>id_p := Some 1, state := CLAIMED, last_updated_at := 1\<rparr>) \<and>
   get_candidates 1 (run [(0, OpCreate request3), (1, OpClaim)] [])
     = Inl (HTTPException 404 ''Candidates not found'') \<and>
   get_state 1 (snd (mark_failed 1 [''msg'' \<mapsto> ''singular matrix''] 2
                  (run [(0, OpCreate request3), (1, OpClaim)] []))) = Inr FAILED \<and>
   get_candidates 1 (snd (mark_failed 1 [''msg'' \<mapsto> ''singular matrix''] 2
                  (run [(0, OpCreate request3), (1, OpClaim)] [])))
     = Inl (HTTPException 404 ''Candidates not found'')"
proof -
  have g: "db_get (run [(0, OpCreate request3), (1, OpClaim)] []) 1 =
     Some ((Proposal_of_request request3 0)\<lparr>id_p := Some 1, state := CLAIMED, last_updated_at := 1\<rparr>)"
    by (simp add: service_defs)
  show ?thesis
    using get_candidates_not_found[OF g, of "[''msg'' \<mapsto> ''singular matrix'']" "''singular matrix''" 2] g
    by (simp add: is_open_def Proposal_of_request_def)
qed

subsection \<open>Claiming\<close>

text \<open>The two steps of a claim call, run back to back, are \<^verbatim>\<open>claim_proposal\<close>.\<close>

lemma claim_proposal_steps:
  "claim_proposal now d =
     (case claim_select d of
        Selected proposal \<Rightarrow> claim_commit now proposal d
      | Returned r \<Rightarrow> (r, d)
      | Entered \<Rightarrow> (Inl TypeError, d))"
  by (simp add: claim_proposal_def claim_select_def claim_commit_def split: list.splits)

lemma claim_select_not_Entered: "claim_select d \<noteq> Entered"
  by (simp add: claim_select_def split: list.splits)

lemma claim_step_twice:
  "claim_step now (fst (claim_step now' Entered d)) (snd (claim_step now' Entered d)) =
     (Returned (fst (claim_proposal now d)), snd (claim_proposal now d))"
  using claim_select_not_Entered[of d]
  by (cases "claim_select d") (simp_all add: claim_proposal_steps split: prod.splits)

lemmas claim_step_defs =
  interleave_def claim_select_def claim_commit_def

text \<open>
  C2, as stated: of several claim calls running at the same time against a store with
  exactly one \<^verbatim>\<open>CREATED\<close> proposal, exactly one returns it and the others find no
  work. This fails for two calls scheduled search, search, update, update: both return
  proposal 1 in state \<^verbatim>\<open>CLAIMED\<close>.
\<close>

theorem concurrent_claims_both_succeed:
  "snd (interleave [(1, 0), (2, 1), (3, 0), (4, 1)]
          (run [(0, OpCreate request3)] [], [Entered, Entered])) =
     [Returned (Inr ((Proposal_of_request request3 0)
                       \<lparr>id_p := Some 1, state := CLAIMED, last_updated_at := 3\<rparr>)),
      Returned (Inr ((Proposal_of_request request3 0)
                       \<lparr>id_p := Some 1, state := CLAIMED, last_updated_at := 4\<rparr>))]"
  by (simp add: service_defs claim_step_defs)

text \<open>
  Claim calls served one after another against a well-formed store with exactly one
  \<^verbatim>\<open>CREATED\<close> proposal: the first returns it in state \<^verbatim>\<open>CLAIMED\<close>, all later ones
  find no work.
\<close>

lemma claim_many_no_work:
  "db_search (\<lambda>p. state p = CREATED) d = [] \<Longrightarrow>
     claim_many ts d = (replicate (length ts) (Inl (HTTPException 404 ''No proposals to claim'')), d)"
  by (induction ts) (simp_all add: claim_proposal_none)

lemma claim_many_serial:
  assumes wf: "wf_db d" and s: "db_search (\<lambda>p. state p = CREATED) d = [q]"
  shows "fst (claim_many (now # ts) d) =
           Inr (q\<lparr>state := CLAIMED, last_updated_at := now\<rparr>)
             # replicate (length ts) (Inl (HTTPException 404 ''No proposals to claim''))"
proof -
  let ?f = "\<lambda>p. p\<lparr>state := CLAIMED, last_updated_at := now\<rparr>"
  from claim_proposal_some[OF wf s, of now] obtain k where
    k: "id_p q = Some k" "map_of d k = Some q" and
    c: "claim_proposal now d = (Inr (?f q), map (\<lambda>(j, p). if j = k then (j, ?f p) else (j, p)) d)"
    by blast
  let ?d1 = "map (\<lambda>(j, p). if j = k then (j, ?f p) else (j, p)) d"
  have "state p \<noteq> CREATED" if "(j, p) \<in> set ?d1" for j p
  proof
    assume cr: "state p = CREATED"
    from upd_mem[OF _ k(2) that] wf have "(j \<noteq> k \<and> (j, p) \<in> set d) \<or> p = ?f q"
      by (auto simp: wf_db_def)
    with cr have jp: "j \<noteq> k" "(j, p) \<in> set d" by auto
    with cr have "p \<in> set (db_search (\<lambda>p. state p = CREATED) d)"
      by (force simp: db_search_def)
    with s have "p = q" by simp
    with jp wf k(1) show False by (auto dest: wf_db_mem)
  qed
  then have "db_search (\<lambda>p. state p = CREATED) ?d1 = []"
    unfolding db_search_def filter_empty_conv by (metis (no_types, lifting) imageE list.set_map prod.collapse)
  from claim_many_no_work[OF this, of ts] show ?thesis
    by (simp add: c)
qed

text \<open>
  C2, amended: when the store reached holds exactly one \<^verbatim>\<open>CREATED\<close> proposal and any
  number of claim calls are served one after another, the first call returns that
  proposal in state \<^verbatim>\<open>CLAIMED\<close> with the new timestamp and every later call gets the
  ``no work'' answer, so no identifier is handed out twice.
\<close>

theorem serial_claims_once:
  assumes "db_search (\<lambda>p. state p = CREATED) (run ops []) = [q]"
  shows "fst (claim_many (now # ts) (run ops [])) =
           Inr (q\<lparr>state := CLAIMED, last_updated_at := now\<rparr>)
             # replicate (length ts) (Inl (HTTPException 404 ''No proposals to claim''))"
  using claim_many_serial[OF wf_db_run[OF wf_db_empty] assms] .

text \<open>C2, amended, at three claim calls after one create.\<close>

theorem serial_claims_once_witness:
  "db_search (\<lambda>p. state p = CREATED) (run [(0, OpCreate request3)] []) =
     [(Proposal_of_request request3 0)\<lparr>id_p := Some 1\<rparr>] \<and>
   fst (claim_many [1, 2, 3] (run [(0, OpCreate request3)] [])) =
     [Inr ((Proposal_of_request request3 0)
             \<lparr>id_p := Some 1, state := CLAIMED, last_updated_at := 1\<rparr>),
      Inl (HTTPException 404 ''No proposals to claim''),
      Inl (HTTPException 404 ''No proposals to claim'')]"
proof -
  have s: "db_search (\<lambda>p. state p = CREATED) (run [(0, OpCreate request3)] []) =
     [(Proposal_of_request request3 0)\<lparr>id_p := Some 1\<rparr>]"
    by (simp add: service_defs)
  show ?thesis
    using serial_claims_once[OF s, of 1 "[2, 3]"] s by simp
qed

section \<open>The worker's unit and control loop\<close>


lemma sent_append: "sent (xs @ ys) = sent xs @ sent ys"
  by (induction xs rule: sent.induct) simp_all

lemma asks_append: "asks (xs @ ys) = asks xs + asks ys"
  by (induction xs rule: asks.induct) simp_all

lemma generate_calls:
  "sent (fst (generate g p)) = [] \<and> asks (fst (generate g p)) \<le> 1"
  by (auto simp: generate_def sent_append asks_append split: sum.splits option.splits)

text \<open>
  The outcome of the \<^verbatim>\<open>try\<close> block in terms of the library calls and the fields of
  the proposal they are given.
\<close>

lemma generate_outcome:
  "snd (generate g p) =
     (case strategies_map g (strategy_data p) of
        Inl e \<Rightarrow> Inl e
      | Inr s \<Rightarrow>
          (case (case experiments p of None \<Rightarrow> Inr s | Some ex \<Rightarrow> tell g s ex) of
             Inl e \<Rightarrow> Inl e
           | Inr s' \<Rightarrow>
               (case ask g s' (n_candidates p) of
                  Inl e \<Rightarrow> Inl e
                | Inr df \<Rightarrow> from_pandas g df (strategy_data p))))"
  by (simp add: generate_def split: sum.splits option.splits)

text \<open>
  When the \<^verbatim>\<open>try\<close> block returns candidates or raises an \<^verbatim>\<open>Exception\<close>, the unit
  sends exactly one message, the candidates or the exception's text, and returns; the
  strategy is asked at most once.
\<close>

lemma process_proposal_sends_one:
  "snd (generate g p) = Inr c \<Longrightarrow>
     sent (fst (process_proposal g p)) = [Msg_candidates c] \<and>
     snd (process_proposal g p) = Unit_returns"
  "snd (generate g p) = Inl (Raised_Exception e) \<Longrightarrow>
     sent (fst (process_proposal g p)) = [Msg_exception (Exn (str e))] \<and>
     snd (process_proposal g p) = Unit_returns"
  using generate_calls[of g p]
  by (auto simp: process_proposal_def sent_append split: prod.splits)

lemma process_proposal_asks_once: "asks (fst (process_proposal g p)) \<le> 1"
  using generate_calls[of g p]
  by (auto simp: process_proposal_def asks_append split: prod.splits sum.splits raised.splits)

text \<open>
  When the \<^verbatim>\<open>try\<close> block raises outside \<^verbatim>\<open>Exception\<close>, the unit sends nothing and
  ends with \<^verbatim>\<open>UnboundLocalError\<close>.
\<close>

lemma process_proposal_sends_none:
  "snd (generate g p) = Inl (Raised_BaseException b) \<Longrightarrow>
     sent (fst (process_proposal g p)) = [] \<and>
     snd (process_proposal g p) = Unit_raises_UnboundLocalError"
  using generate_calls[of g p]
  by (auto simp: process_proposal_def split: prod.splits)

lemmas unit_example_defs =
  process_proposal_def generate_def gen_ok_def gen_singular_def gen_interrupted_def
  proposal_told_def Proposal_of_request_def request3_def

lemma process_proposal_ok:
  "process_proposal gen_ok proposal_told =
     ([Map_call ''sobol'', Tell_call [''run 1''], Ask_call 3, From_pandas_call ''sobol'',
       Send (Msg_candidates \<lparr>rows = [''sobol'', ''sobol'', ''sobol'']\<rparr>)],
      Unit_returns)"
  by (simp add: unit_example_defs numeral_3_eq_3)

lemma process_proposal_singular:
  "process_proposal gen_singular proposal_told =
     ([Map_call ''sobol'', Tell_call [''run 1''], Ask_call 3,
       Send (Msg_exception (Exn ''singular matrix''))],
      Unit_returns)"
  by (simp add: unit_example_defs)

text \<open>
  C9: the unit is to send exactly one message for every proposal, a failure value on any
  exception of the generator. For a proposal whose \<^verbatim>\<open>ask\<close> call is interrupted
  (\<^verbatim>\<open>KeyboardInterrupt\<close>, which is not an \<^verbatim>\<open>Exception\<close>), \<^verbatim>\<open>process_proposal\<close> makes
  its library calls, sends no message at all and ends with \<^verbatim>\<open>UnboundLocalError\<close> raised
  by its \<^verbatim>\<open>finally\<close> clause.
\<close>

theorem process_proposal_interrupted:
  "process_proposal gen_interrupted proposal_told =
     ([Map_call ''sobol'', Tell_call [''run 1''], Ask_call 3], Unit_raises_UnboundLocalError) \<and>
   sent (fst (process_proposal gen_interrupted proposal_told)) = []"
  by (simp add: unit_example_defs)












end
